theory Spec2Isabelle
  imports Main "HOL-Library.Sublist" "HOL-Library.AList"
begin

section \<open>JavaScript values used by the demo application\<close>

text \<open>
  The two code files only handle strings, booleans and \<^verbatim>\<open>undefined\<close>.
  \<^verbatim>\<open>===\<close> never converts: values of different types are unequal.
\<close>

datatype js_value = JUndefined | JBool bool | JString string

fun strict_eq :: "js_value \<Rightarrow> js_value \<Rightarrow> bool" where
  "strict_eq JUndefined JUndefined = True"
| "strict_eq (JBool a) (JBool b) = (a = b)"
| "strict_eq (JString a) (JString b) = (a = b)"
| "strict_eq _ _ = False"

text \<open>\<^verbatim>\<open>ToString\<close>, as applied by \<^verbatim>\<open>+\<close> with a string operand.\<close>

fun to_string :: "js_value \<Rightarrow> string" where
  "to_string JUndefined = ''undefined''"
| "to_string (JBool b) = (if b then ''true'' else ''false'')"
| "to_string (JString s) = s"

text \<open>
  \<^verbatim>\<open>new Array(n)\<close> is an array of length \<open>n\<close> whose slots are all empty; an empty
  slot reads as \<^verbatim>\<open>undefined\<close>. \<^verbatim>\<open>Array.prototype.join\<close> writes an
  undefined element as the empty string and puts the separator between neighbours.
\<close>

definition new_Array :: "nat \<Rightarrow> js_value list" where
  "new_Array n = replicate n JUndefined"

fun join_elem :: "js_value \<Rightarrow> string" where
  "join_elem JUndefined = []"
| "join_elem v = to_string v"

fun join :: "string \<Rightarrow> js_value list \<Rightarrow> string" where
  "join sep [] = []"
| "join sep [v] = join_elem v"
| "join sep (v # w # ws) = join_elem v @ sep @ join sep (w # ws)"

section \<open>The rootTest directive (root.directive.js)\<close>

text \<open>
  Scopes and elements are objects on the heap, addressed by a reference. The directive
  reads and writes two properties of its isolated scope, \<^verbatim>\<open>val\<close> and
  \<^verbatim>\<open>title\<close>; a property never assigned reads as \<^verbatim>\<open>undefined\<close>.
\<close>

type_synonym ref = nat

record scope_obj =
  val :: js_value
  title :: js_value

text \<open>
  The function values the directive creates, each with the variables it closes over:
  the \<^verbatim>\<open>someEvent\<close> listener (lines 8 to 15, closing over \<^verbatim>\<open>scope\<close> and
  \<^verbatim>\<open>element\<close>), the tooltip's \<^verbatim>\<open>title\<close> function (lines 10 to 12, closing over
  \<^verbatim>\<open>scope\<close>), and the deregistration function that \<^verbatim>\<open>$rootScope.$on\<close> returns
  (for the event name and the identity of the listener it registered).
\<close>

datatype closure =
    Listener ref ref
  | TitleFn ref
  | Deregister string nat

record element_obj =
  on_destroy :: "closure list"
  tooltips :: "closure list"

text \<open>
  The state: the scope and element heaps, and \<^verbatim>\<open>$rootScope\<close>'s listener table,
  one array of listeners per event name. Every registration gets a fresh identity
  (\<open>next_id\<close>), as every evaluation of a function expression is a new object.
\<close>

record app_state =
  scopes :: "ref \<Rightarrow> scope_obj"
  elements :: "ref \<Rightarrow> element_obj"
  listeners :: "string \<Rightarrow> (nat \<times> closure) list"
  next_id :: nat

definition init_state :: app_state where
  "init_state =
     \<lparr>scopes = (\<lambda>_. \<lparr>val = JUndefined, title = JUndefined\<rparr>),
      elements = (\<lambda>_. \<lparr>on_destroy = [], tooltips = []\<rparr>),
      listeners = (\<lambda>_. []),
      next_id = 0\<rparr>"

subsection \<open>What the framework does\<close>

text \<open>
  The framework is not part of the two files; its operations follow its documentation.
  \<^verbatim>\<open>$rootScope.$on(name, listener)\<close> pushes the listener onto the array of
  \<open>name\<close> and returns the function that takes this very listener out again (the
  framework blanks the listener's slot and skips blank slots; here the entry is dropped).
\<close>

definition rootScope_on :: "string \<Rightarrow> closure \<Rightarrow> app_state \<Rightarrow> closure \<times> app_state" where
  "rootScope_on name f s =
     (Deregister name (next_id s),
      s\<lparr>listeners := (listeners s)(name := listeners s name @ [(next_id s, f)]),
        next_id := Suc (next_id s)\<rparr>)"

definition deregister :: "string \<Rightarrow> nat \<Rightarrow> app_state \<Rightarrow> app_state" where
  "deregister name i s =
     s\<lparr>listeners := (listeners s)(name := filter (\<lambda>p. fst p \<noteq> i) (listeners s name))\<rparr>"

text \<open>\<^verbatim>\<open>element.tooltip(options)\<close> hands the options' title function to the element.\<close>

definition element_tooltip :: "ref \<Rightarrow> closure \<Rightarrow> app_state \<Rightarrow> app_state" where
  "element_tooltip el t s =
     s\<lparr>elements := (elements s)(el := (elements s el)\<lparr>tooltips := tooltips (elements s el) @ [t]\<rparr>)\<rparr>"

definition set_val :: "ref \<Rightarrow> js_value \<Rightarrow> app_state \<Rightarrow> app_state" where
  "set_val sc v s = s\<lparr>scopes := (scopes s)(sc := (scopes s sc)\<lparr>val := v\<rparr>)\<rparr>"

subsection \<open>The link function and its listener\<close>

text \<open>Lines 9 to 14: the body of the listener.\<close>

definition someEvent_listener :: "ref \<Rightarrow> ref \<Rightarrow> app_state \<Rightarrow> app_state" where
  "someEvent_listener sc el s =
     set_val sc (JString (join ''x'' (new_Array 999999)))
       (element_tooltip el (TitleFn sc) s)"

text \<open>Line 11: the tooltip's title.\<close>

definition tooltip_title :: "ref \<Rightarrow> app_state \<Rightarrow> string" where
  "tooltip_title sc s =
     ''Rating is '' @ to_string (title (scopes s sc)) @ to_string (val (scopes s sc))"

text \<open>
  Calling a function value. The title function only reads; the deregistration function
  removes its listener.
\<close>

fun call_closure :: "closure \<Rightarrow> app_state \<Rightarrow> app_state" where
  "call_closure (Listener sc el) s = someEvent_listener sc el s"
| "call_closure (TitleFn sc) s = s"
| "call_closure (Deregister name i) s = deregister name i s"

text \<open>
  Lines 6 to 21. \<open>link_body\<close> also gives the local variable \<^verbatim>\<open>cleanUp\<close>; the
  function itself returns nothing, and the lines that would hand \<^verbatim>\<open>cleanUp\<close> to
  the element's \<^verbatim>\<open>$destroy\<close> event are a comment.
\<close>

definition link_body :: "ref \<Rightarrow> ref \<Rightarrow> app_state \<Rightarrow> closure \<times> app_state" where
  "link_body sc el s =
     rootScope_on ''someEvent'' (Listener sc el)
       (set_val sc (JString (join ''x'' (new_Array 999999))) s)"

definition link :: "ref \<Rightarrow> ref \<Rightarrow> app_state \<Rightarrow> app_state" where
  "link sc el s = snd (link_body sc el s)"

text \<open>The value of line 7 and line 14.\<close>

abbreviation (input) large :: js_value where
  "large \<equiv> JString (join ''x'' (new_Array 999999))"

subsection \<open>Executions\<close>

text \<open>
  What can happen to the directive: the framework links an instance (a scope and an
  element of the framework's choosing), an event is fired on \<^verbatim>\<open>$rootScope\<close>, or an
  element is destroyed, which calls the functions registered for its
  \<^verbatim>\<open>$destroy\<close> event.
\<close>

datatype action = Link ref ref | Fire string | Destroy ref

definition call_all :: "closure list \<Rightarrow> app_state \<Rightarrow> app_state" where
  "call_all fs s = fold call_closure fs s"

text \<open>The function values an action calls, in the order of the calls.\<close>

fun invoked :: "action \<Rightarrow> app_state \<Rightarrow> closure list" where
  "invoked (Link sc el) s = []"
| "invoked (Fire name) s = map snd (listeners s name)"
| "invoked (Destroy el) s = on_destroy (elements s el)"

fun step :: "action \<Rightarrow> app_state \<Rightarrow> app_state" where
  "step (Link sc el) s = link sc el s"
| "step (Fire name) s = call_all (invoked (Fire name) s) s"
| "step (Destroy el) s = call_all (invoked (Destroy el) s) s"

definition run :: "action list \<Rightarrow> app_state \<Rightarrow> app_state" where
  "run as s = fold step as s"

text \<open>The listeners that the link invocations of an execution register, and their scopes.\<close>

fun links :: "action list \<Rightarrow> closure list" where
  "links [] = []"
| "links (Link sc el # as) = Listener sc el # links as"
| "links (a # as) = links as"

fun linked_scopes :: "action list \<Rightarrow> ref list" where
  "linked_scopes [] = []"
| "linked_scopes (Link sc el # as) = sc # linked_scopes as"
| "linked_scopes (a # as) = linked_scopes as"

fun is_listener :: "closure \<Rightarrow> bool" where
  "is_listener (Listener sc el) = True"
| "is_listener _ = False"

text \<open>
  The invariant of the executions: no element has a \<^verbatim>\<open>$destroy\<close> handler, and
  \<^verbatim>\<open>$rootScope\<close> holds nothing but listeners of the directive.
\<close>

definition quiet :: "app_state \<Rightarrow> bool" where
  "quiet s = ((\<forall>e. on_destroy (elements s e) = []) \<and>
              (\<forall>name. list_all (is_listener \<circ> snd) (listeners s name)))"

text \<open>The strings that the listeners of \<^verbatim>\<open>$rootScope\<close> keep reachable.\<close>

fun captured_scope :: "closure \<Rightarrow> ref list" where
  "captured_scope (Listener sc el) = [sc]"
| "captured_scope (TitleFn sc) = [sc]"
| "captured_scope (Deregister name i) = []"

definition retained_scopes :: "app_state \<Rightarrow> string \<Rightarrow> ref list" where
  "retained_scopes s name = remdups (concat (map (captured_scope \<circ> snd) (listeners s name)))"

fun string_size :: "js_value \<Rightarrow> nat" where
  "string_size (JString t) = length t"
| "string_size _ = 0"

definition retained_chars :: "app_state \<Rightarrow> string \<Rightarrow> nat" where
  "retained_chars s name = sum_list (map (\<lambda>sc. string_size (val (scopes s sc))) (retained_scopes s name))"

section \<open>The application module (app.js)\<close>

text \<open>
  What a function of the application does to the objects injected into it is recorded as
  the list of its calls on them, in order, next to what it returns. A call that fails
  gives \<open>Inl\<close> of the error; the same holds for a promise that is rejected.
\<close>

datatype call = Call string string "js_value list"

record ('e, 'a) outcome =
  result :: "'e + 'a"
  calls :: "call list"

text \<open>The calls made on one injected object.\<close>

fun callee :: "call \<Rightarrow> string" where
  "callee (Call obj m args) = obj"

definition calls_on :: "string \<Rightarrow> call list \<Rightarrow> call list" where
  "calls_on obj cs = filter (\<lambda>c. callee c = obj) cs"

subsection \<open>HomeController\<close>

text \<open>
  The controller's surroundings: the path that \<^verbatim>\<open>$location.path()\<close> reports, and
  what each function of \<^verbatim>\<open>ScenariosService\<close> answers (the service is not part of
  these files).
\<close>

record 'e env =
  location_path :: string
  ScenariosService :: "string \<Rightarrow> js_value list \<Rightarrow> 'e + js_value"

type_synonym 'e scope_fn = "'e env \<Rightarrow> js_value list \<Rightarrow> ('e, js_value) outcome"

text \<open>A parameter for which the caller passed nothing is \<^verbatim>\<open>undefined\<close>.\<close>

definition arg :: "nat \<Rightarrow> js_value list \<Rightarrow> js_value" where
  "arg i args = (if i < length args then args ! i else JUndefined)"

text \<open>Lines 5 to 7. Without an argument \<^verbatim>\<open>$location.path\<close> is the getter.\<close>

definition isActive :: "'e scope_fn" where
  "isActive env args =
     \<lparr>result = Inr (JBool (strict_eq (arg 0 args) (JString (location_path env)))),
      calls = [Call ''$location'' ''path'' []]\<rparr>"

text \<open>
  Lines 9 to 22. Each trigger is one statement, the call of the service's function; the
  trigger has no \<^verbatim>\<open>return\<close>, and nothing catches what the service throws.
\<close>

definition call_service :: "string \<Rightarrow> 'e scope_fn" where
  "call_service m env args =
     \<lparr>result = (case ScenariosService env m [] of Inl e \<Rightarrow> Inl e | Inr v \<Rightarrow> Inr JUndefined),
      calls = [Call ''ScenariosService'' m []]\<rparr>"

definition scenario1 :: "'e scope_fn" where
  "scenario1 = call_service ''scenario1''"

definition scenario2 :: "'e scope_fn" where
  "scenario2 = call_service ''scenario2''"

definition scenario3 :: "'e scope_fn" where
  "scenario3 = call_service ''scenario3''"

definition scenario4 :: "'e scope_fn" where
  "scenario4 = call_service ''scenario4''"

text \<open>
  The controller function assigns five properties of \<^verbatim>\<open>$scope\<close>, an object:
  assigning a property that exists replaces its value, a new one is added last.
\<close>

definition HomeController :: "(string \<times> 'e scope_fn) list \<Rightarrow> (string \<times> 'e scope_fn) list" where
  "HomeController scope =
     AList.update ''scenario4'' scenario4
       (AList.update ''scenario3'' scenario3
         (AList.update ''scenario2'' scenario2
           (AList.update ''scenario1'' scenario1
             (AList.update ''isActive'' isActive scope))))"

subsection \<open>The route table\<close>

record 'd response =
  data :: 'd

text \<open>\<^verbatim>\<open>promise.then(f)\<close> with one argument: a rejection passes through.\<close>

definition then_promise :: "('a \<Rightarrow> 'b) \<Rightarrow> 'e + 'a \<Rightarrow> 'e + 'b" where
  "then_promise f p = (case p of Inl e \<Rightarrow> Inl e | Inr v \<Rightarrow> Inr (f v))"

text \<open>Reading a property of the route's parameters, which are strings.\<close>

definition get_prop :: "(string \<times> string) list \<Rightarrow> string \<Rightarrow> js_value" where
  "get_prop obj k = (case map_of obj k of None \<Rightarrow> JUndefined | Some v \<Rightarrow> JString v)"

text \<open>
  Lines 31 to 37, the \<^verbatim>\<open>album\<close> entry of \<^verbatim>\<open>resolve\<close>. Its surroundings are
  \<^verbatim>\<open>JSON.stringify\<close>, the settled result of \<^verbatim>\<open>$http.get\<close> for a URL, and the
  parameters of the current route.
\<close>

type_synonym ('e, 'd) resolver =
  "((string \<times> string) list \<Rightarrow> string) \<Rightarrow> (string \<Rightarrow> 'e + 'd response) \<Rightarrow>
   (string \<times> string) list \<Rightarrow> ('e, 'd) outcome"

definition album :: "('e, 'd) resolver" where
  "album JSON_stringify http_get params =
     (let url = ''api/album/'' @ to_string (get_prop params ''albumId'') in
      \<lparr>result = then_promise data (http_get url),
       calls = [Call ''console'' ''log'' [JString (JSON_stringify params)],
                Call ''$http'' ''get'' [JString url]]\<rparr>)"

record 'r route =
  templateUrl :: "string option"
  template :: "string option"
  controller :: "string option"
  resolve :: "(string \<times> 'r) list"

text \<open>
  \<^verbatim>\<open>$routeProvider\<close>: the routes by path, in the order of their definition, and the
  route of \<^verbatim>\<open>otherwise\<close>.
\<close>

record 'r routeProvider =
  routes :: "(string \<times> 'r route) list"
  otherwise_route :: "'r route option"

definition routeProvider_when :: "string \<Rightarrow> 'r route \<Rightarrow> 'r routeProvider \<Rightarrow> 'r routeProvider" where
  "routeProvider_when path r p = p\<lparr>routes := AList.update path r (routes p)\<rparr>"

definition routeProvider_otherwise :: "'r route \<Rightarrow> 'r routeProvider \<Rightarrow> 'r routeProvider" where
  "routeProvider_otherwise r p = p\<lparr>otherwise_route := Some r\<rparr>"

text \<open>Lines 25 to 55.\<close>

definition config :: "('e, 'd) resolver routeProvider \<Rightarrow> ('e, 'd) resolver routeProvider" where
  "config p =
     routeProvider_otherwise
       \<lparr>templateUrl = Some ''app/albums/albums.html'', template = None,
        controller = Some ''AlbumsController'', resolve = []\<rparr>
     (routeProvider_when ''/scope''
       \<lparr>templateUrl = None, template = Some ''<div><scope-test></scope-test></div>'',
        controller = None, resolve = []\<rparr>
     (routeProvider_when ''/root''
       \<lparr>templateUrl = None, template = Some ''<div><root-test></root-test></div>'',
        controller = None, resolve = []\<rparr>
     (routeProvider_when ''/toprated''
       \<lparr>templateUrl = Some ''app/toprated/toprated.html'', template = None,
        controller = Some ''TopRatedController'', resolve = []\<rparr>
     (routeProvider_when ''/album/:albumId''
       \<lparr>templateUrl = Some ''app/album/album.html'', template = None,
        controller = Some ''AlbumController'', resolve = [(''album'', album)]\<rparr>
      p))))"

definition app_routes :: "('e, 'd) resolver routeProvider" where
  "app_routes = config \<lparr>routes = [], otherwise_route = None\<rparr>"

text \<open>
  Finding the route of a path: the first route whose path the location matches, else the
  route of \<^verbatim>\<open>otherwise\<close>. How the router matches a path against a pattern such as
  \<^verbatim>\<open>/album/:albumId\<close> is the router's own; it is left open here.
\<close>

definition parse_route ::
  "(string \<Rightarrow> string \<Rightarrow> bool) \<Rightarrow> 'r routeProvider \<Rightarrow> string \<Rightarrow> 'r route option" where
  "parse_route matches p path =
     (case find (\<lambda>pr. matches (fst pr) path) (routes p) of
        Some pr \<Rightarrow> Some (snd pr)
      | None \<Rightarrow> otherwise_route p)"

subsection \<open>The directives of the module\<close>







section \<open>Calls that throw\<close>

text \<open>
  Neither file has a \<^verbatim>\<open>try\<close> statement, a \<^verbatim>\<open>catch\<close> callback or a second
  argument to \<^verbatim>\<open>then\<close>. A call that throws therefore ends the function that made
  it, at that call and with that error; what the function had done before stays done, what
  comes after the call does not happen. Whether a call throws is its callee's business,
  so it is a parameter here, and each operation of the two files is written once more with
  every call it makes allowed to throw. The controller function, the directive's factory
  and the tooltip's title function make no call; the scenario triggers and the rejected
  request have their error outcome in the definitions above.
\<close>

subsection \<open>root.directive.js\<close>






subsection \<open>app.js\<close>



text \<open>
  Lines 25 to 55 as the chain of calls on \<^verbatim>\<open>$routeProvider\<close> that it is; a call of
  the chain that throws leaves the later routes undefined.
\<close>

datatype 'r provider_call = When string "'r route" | Otherwise "'r route"

fun apply_call :: "'r provider_call \<Rightarrow> 'r routeProvider \<Rightarrow> 'r routeProvider" where
  "apply_call (When path r) p = routeProvider_when path r p"
| "apply_call (Otherwise r) p = routeProvider_otherwise r p"


fun chain_exc ::
  "('r provider_call \<Rightarrow> 'e option) \<Rightarrow> 'r provider_call list \<Rightarrow> 'r routeProvider \<Rightarrow>
   'e option \<times> 'r routeProvider" where
  "chain_exc throws [] p = (None, p)"
| "chain_exc throws (c # cs) p =
     (case throws c of
        Some e \<Rightarrow> (Some e, p)
      | None \<Rightarrow> chain_exc throws cs (apply_call c p))"


text \<open>The first error that a list of calls throws.\<close>

fun first_thrown :: "('c \<Rightarrow> 'e option) \<Rightarrow> 'c list \<Rightarrow> 'e option" where
  "first_thrown throws [] = None"
| "first_thrown throws (c # cs) =
     (case throws c of Some e \<Rightarrow> Some e | None \<Rightarrow> first_thrown throws cs)"

section \<open>Properties of the directive\<close>

subsection \<open>The large string\<close>

lemma join_undefined: "join sep (replicate (Suc n) JUndefined) = concat (replicate n sep)"
  by (induction n) simp_all

lemma large_string: "join ''x'' (new_Array 999999) = replicate 999998 CHR ''x''"
proof -
  have "(999999::nat) = Suc 999998" by simp
  then have "new_Array 999999 = replicate (Suc 999998) JUndefined"
    by (simp only: new_Array_def)
  then show ?thesis
    by (simp only: join_undefined concat_replicate_single)
qed

lemma large_string_size: "string_size (JString (join ''x'' (new_Array 999999))) = 999998"
  by (simp only: large_string string_size.simps length_replicate)

lemma tooltip_title_after_link:
  assumes "title (scopes s sc) = JUndefined"
  shows "tooltip_title sc (link sc el s) = ''Rating is undefined'' @ replicate 999998 CHR ''x''"
proof -
  have "scopes (link sc el s) sc = (scopes s sc)\<lparr>val := large\<rparr>"
    by (simp add: link_def link_body_def rootScope_on_def set_val_def)
  then show ?thesis
    using assms by (simp add: tooltip_title_def large_string)
qed

subsection \<open>What each operation leaves alone\<close>

lemma set_val_frame:
  "listeners (set_val sc v s) = listeners s"
  "elements (set_val sc v s) = elements s"
  "next_id (set_val sc v s) = next_id s"
  "val (scopes (set_val sc v s) r) = (if r = sc then v else val (scopes s r))"
  "title (scopes (set_val sc v s) r) = title (scopes s r)"
  by (simp_all add: set_val_def)

lemma element_tooltip_frame:
  "listeners (element_tooltip el t s) = listeners s"
  "scopes (element_tooltip el t s) = scopes s"
  "next_id (element_tooltip el t s) = next_id s"
  "on_destroy (elements (element_tooltip el t s) e) = on_destroy (elements s e)"
  by (simp_all add: element_tooltip_def)

lemma someEvent_listener_frame:
  "listeners (someEvent_listener sc el s) = listeners s"
  "next_id (someEvent_listener sc el s) = next_id s"
  "on_destroy (elements (someEvent_listener sc el s) e) = on_destroy (elements s e)"
  "val (scopes (someEvent_listener sc el s) r) = (if r = sc then large else val (scopes s r))"
  by (simp_all add: someEvent_listener_def set_val_frame element_tooltip_frame)

lemma deregister_frame:
  "scopes (deregister name i s) = scopes s"
  "elements (deregister name i s) = elements s"
  "next_id (deregister name i s) = next_id s"
  "listeners (deregister name i s) n =
     (if n = name then filter (\<lambda>p. fst p \<noteq> i) (listeners s n) else listeners s n)"
  by (simp_all add: deregister_def)

lemma link_frame:
  "listeners (link sc el s) name =
     (if name = ''someEvent'' then listeners s name @ [(next_id s, Listener sc el)]
      else listeners s name)"
  "next_id (link sc el s) = Suc (next_id s)"
  "elements (link sc el s) = elements s"
  "val (scopes (link sc el s) r) = (if r = sc then large else val (scopes s r))"
  by (simp_all add: link_def link_body_def rootScope_on_def set_val_frame)

subsection \<open>Executions keep every listener\<close>

lemma call_listener_frame:
  "is_listener f \<Longrightarrow> listeners (call_closure f s) = listeners s"
  "is_listener f \<Longrightarrow> next_id (call_closure f s) = next_id s"
  "is_listener f \<Longrightarrow> on_destroy (elements (call_closure f s) e) = on_destroy (elements s e)"
  by (cases f; simp add: someEvent_listener_frame)+

lemma call_all_frame:
  "list_all is_listener fs \<Longrightarrow>
     listeners (call_all fs s) = listeners s \<and> next_id (call_all fs s) = next_id s \<and>
     (\<forall>e. on_destroy (elements (call_all fs s) e) = on_destroy (elements s e))"
  unfolding call_all_def
  by (induction fs arbitrary: s) (simp_all add: call_listener_frame)

lemma call_all_Nil: "call_all [] s = s"
  by (simp add: call_all_def)

lemma quiet_init: "quiet init_state"
  by (simp add: quiet_def init_state_def)

lemma step_listeners:
  assumes "quiet s"
  shows "listeners (step a s) name =
           listeners s name @
           (if name = ''someEvent'' then List.enumerate (next_id s) (links [a]) else [])"
    and "next_id (step a s) = next_id s + length (links [a])"
    and "on_destroy (elements (step a s) e) = []"
proof -
  have d: "\<And>e. on_destroy (elements s e) = []"
    and l: "\<And>n. list_all is_listener (map snd (listeners s n))"
    using assms by (simp_all add: quiet_def list_all_iff)
  show "listeners (step a s) name =
           listeners s name @
           (if name = ''someEvent'' then List.enumerate (next_id s) (links [a]) else [])"
    by (cases a) (simp_all add: link_frame d call_all_frame [OF l] call_all_Nil)
  show "next_id (step a s) = next_id s + length (links [a])"
    by (cases a) (simp_all add: link_frame d call_all_frame [OF l] call_all_Nil)
  show "on_destroy (elements (step a s) e) = []"
    by (cases a) (simp_all add: link_frame d call_all_frame [OF l] call_all_Nil)
qed

lemma step_quiet:
  assumes "quiet s"
  shows "quiet (step a s)"
proof -
  note L = step_listeners [OF assms]
  have "list_all (is_listener \<circ> snd) (listeners (step a s) name)" for name
    unfolding L(1) using assms by (cases a) (simp_all add: quiet_def)
  with L(3) show ?thesis
    by (simp add: quiet_def)
qed

lemma run_Cons: "run (a # as) s = run as (step a s)"
  by (simp add: run_def)

lemma run_append: "run (as @ bs) s = run bs (run as s)"
  by (simp add: run_def)

lemma links_append: "links (as @ bs) = links as @ links bs"
  by (induction as rule: links.induct) simp_all

lemma run_quiet: "quiet s \<Longrightarrow> quiet (run as s)"
  by (induction as arbitrary: s) (simp_all add: run_Cons step_quiet, simp add: run_def)

lemma links_Cons: "links (a # as) = links [a] @ links as"
  using links_append [of "[a]" as] by simp

lemma run_listeners:
  "quiet s \<Longrightarrow>
     listeners (run as s) name =
       listeners s name @
       (if name = ''someEvent'' then List.enumerate (next_id s) (links as) else []) \<and>
     next_id (run as s) = next_id s + length (links as)"
proof (induction as arbitrary: s)
  case Nil
  then show ?case by (simp add: run_def)
next
  case (Cons a as)
  have q: "quiet (step a s)" using Cons.prems by (rule step_quiet)
  note S = step_listeners [OF Cons.prems, of a]
  show ?case
    unfolding run_Cons links_Cons [of a as]
    by (simp add: Cons.IH [OF q] S enumerate_append_eq)
qed



lemma call_closure_val:
  "val (scopes (call_closure f s) r) = val (scopes s r) \<or>
   val (scopes (call_closure f s) r) = large"
  by (cases f) (simp_all add: someEvent_listener_frame deregister_frame)

lemma call_closure_sticky:
  "val (scopes s r) = large \<Longrightarrow> val (scopes (call_closure f s) r) = large"
  using call_closure_val [of f s r] by auto

lemma call_all_val:
  "val (scopes (call_all fs s) r) = val (scopes s r) \<or>
   val (scopes (call_all fs s) r) = large"
  unfolding call_all_def
proof (induction fs arbitrary: s)
  case Nil
  show ?case by simp
next
  case (Cons f fs)
  from Cons.IH [of "call_closure f s"] call_closure_val [of f s r]
  show ?case by auto
qed

lemma step_val:
  "val (scopes (step a s) r) = val (scopes s r) \<or> val (scopes (step a s) r) = large"
  by (cases a) (simp_all add: link_frame call_all_val)

lemma run_val:
  "val (scopes (run as s) r) = val (scopes s r) \<or> val (scopes (run as s) r) = large"
proof (induction as arbitrary: s)
  case Nil
  show ?case by (simp add: run_def)
next
  case (Cons a as)
  from Cons.IH [of "step a s"] step_val [of a s r]
  show ?case unfolding run_Cons by auto
qed

lemma run_sticky: "val (scopes s r) = large \<Longrightarrow> val (scopes (run as s) r) = large"
  using run_val [of as s r] by auto

lemma run_linked_val:
  "r \<in> set (linked_scopes as) \<Longrightarrow> val (scopes (run as s) r) = large"
proof (induction as arbitrary: s rule: linked_scopes.induct)
  case 1
  then show ?case by simp
next
  case (2 sc el as)
  show ?case
  proof (cases "r = sc")
    case True
    then have "val (scopes (step (Link sc el) s) r) = large"
      by (simp add: link_frame)
    then show ?thesis unfolding run_Cons by (rule run_sticky)
  next
    case False
    with 2 show ?thesis unfolding run_Cons by simp
  qed
qed (simp_all add: run_Cons)

lemma captured_links: "concat (map captured_scope (links as)) = linked_scopes as"
  by (induction as rule: links.induct) simp_all

lemma run_init_listeners:
  "listeners (run as init_state) name =
     (if name = ''someEvent'' then List.enumerate 0 (links as) else [])"
  using run_listeners [OF quiet_init, of as name] by (simp add: init_state_def)

lemma retained_scopes_run:
  "retained_scopes (run as init_state) ''someEvent'' = remdups (linked_scopes as)"
  by (simp add: retained_scopes_def run_init_listeners captured_links
      flip: map_map)

lemma retained_chars_run:
  "retained_chars (run as init_state) ''someEvent'' = 999998 * card (set (linked_scopes as))"
proof -
  have m: "map (\<lambda>sc. string_size (val (scopes (run as init_state) sc))) (remdups (linked_scopes as))
        = map (\<lambda>sc. 999998) (remdups (linked_scopes as))"
    by (rule map_cong [OF refl]) (simp only: set_remdups run_linked_val large_string_size)
  show ?thesis
    unfolding retained_chars_def retained_scopes_run m
    by (simp add: sum_list_triv length_remdups_card_conv)
qed

lemma linked_scopes_append: "linked_scopes (as @ bs) = linked_scopes as @ linked_scopes bs"
  by (induction as rule: linked_scopes.induct) simp_all

subsection \<open>Retained memory grows with every link invocation\<close>

lemma run_snoc_link: "run (as @ [Link sc el]) s = link sc el (run as s)"
  by (simp add: run_def)

lemma links_length_mono: "length (links as) \<le> length (links (as @ bs))"
  by (simp add: links_append)

lemma retained_chars_mono:
  "retained_chars (run as init_state) ''someEvent''
     \<le> retained_chars (run (as @ bs) init_state) ''someEvent''"
proof -
  have "card (set (linked_scopes as)) \<le> card (set (linked_scopes (as @ bs)))"
    by (rule card_mono) (simp_all add: linked_scopes_append)
  then show ?thesis
    by (simp only: retained_chars_run mult_le_mono2)
qed

lemma retained_chars_fresh:
  assumes "sc \<notin> set (linked_scopes as)"
  shows "retained_chars (link sc el (run as init_state)) ''someEvent''
           = retained_chars (run as init_state) ''someEvent'' + 999998"
proof -
  have "card (set (linked_scopes (as @ [Link sc el]))) = Suc (card (set (linked_scopes as)))"
    using assms by (simp add: linked_scopes_append)
  then show ?thesis
    by (simp only: retained_chars_run flip: run_snoc_link) simp
qed

text \<open>
  Claim C1. In every execution, linking an instance of the directive appends one listener
  to the \<^verbatim>\<open>someEvent\<close> listeners of \<^verbatim>\<open>$rootScope\<close>; the number of listeners is the
  number of link invocations so far, so none is ever taken out; the number of listeners and
  the number of characters they keep reachable never decrease as the execution goes on;
  and a link invocation on a new scope adds 999998 retained characters.
\<close>

theorem link_adds_listener_none_removed:
  "listeners (link sc el (run as init_state)) ''someEvent''
     = listeners (run as init_state) ''someEvent'' @ [(length (links as), Listener sc el)]
   \<and> length (listeners (run as init_state) ''someEvent'') = length (links as)
   \<and> length (listeners (run as init_state) ''someEvent'')
       \<le> length (listeners (run (as @ bs) init_state) ''someEvent'')
   \<and> retained_chars (run as init_state) ''someEvent''
       \<le> retained_chars (run (as @ bs) init_state) ''someEvent''
   \<and> (sc \<notin> set (linked_scopes as) \<longrightarrow>
        retained_chars (link sc el (run as init_state)) ''someEvent''
          = retained_chars (run as init_state) ''someEvent'' + 999998)"
proof -
  have n: "next_id (run as init_state) = length (links as)"
    using run_listeners [OF quiet_init, of as "''someEvent''"] by (simp add: init_state_def)
  have a: "listeners (link sc el (run as init_state)) ''someEvent''
     = listeners (run as init_state) ''someEvent'' @ [(length (links as), Listener sc el)]"
    by (simp add: link_frame n)
  have b: "length (listeners (run as init_state) ''someEvent'') = length (links as)"
    by (simp add: run_init_listeners)
  have c: "length (listeners (run as init_state) ''someEvent'')
       \<le> length (listeners (run (as @ bs) init_state) ''someEvent'')"
    by (simp add: run_init_listeners links_append)
  from a b c retained_chars_mono retained_chars_fresh show ?thesis
    by blast
qed

theorem link_adds_listener_none_removed_witness:
  "length (listeners (run [Link 0 0, Fire ''someEvent'', Destroy 0] init_state) ''someEvent'') = 1
   \<and> 1 \<notin> set (linked_scopes [Link 0 0, Fire ''someEvent'', Destroy 0])
   \<and> retained_chars (link 1 1 (run [Link 0 0, Fire ''someEvent'', Destroy 0] init_state)) ''someEvent''
      = retained_chars (run [Link 0 0, Fire ''someEvent'', Destroy 0] init_state) ''someEvent'' + 999998"
  using link_adds_listener_none_removed
    [of 1 1 "[Link 0 0, Fire ''someEvent'', Destroy 0]" "[]"]
  by simp

subsection \<open>The deregistration function is never called\<close>

lemma run_init_quiet: "quiet (run as init_state)"
  by (rule run_quiet [OF quiet_init])

lemma run_init_next_id: "next_id (run as init_state) = length (links as)"
  using run_listeners [OF quiet_init, of as "''someEvent''"] by (simp add: init_state_def)

lemma invoked_listeners: "quiet s \<Longrightarrow> list_all is_listener (invoked a s)"
  by (cases a) (simp_all add: quiet_def list_all_iff)

lemma link_body_cleanUp: "fst (link_body sc el s) = Deregister ''someEvent'' (next_id s)"
  by (simp add: link_body_def rootScope_on_def set_val_frame)

lemma cleanUp_deregisters:
  assumes "\<forall>p \<in> set (listeners s ''someEvent''). fst p \<noteq> next_id s"
  shows "listeners (call_closure (fst (link_body sc el s)) (link sc el s)) = listeners s"
proof
  fix name
  have "filter (\<lambda>p. fst p \<noteq> next_id s) (listeners s ''someEvent'') = listeners s ''someEvent''"
    using assms by (simp add: filter_id_conv)
  then show "listeners (call_closure (fst (link_body sc el s)) (link sc el s)) name
               = listeners s name"
    by (simp add: link_body_cleanUp deregister_frame link_frame)
qed

text \<open>
  Claim C2. The deregistration function that \<^verbatim>\<open>$rootScope.$on\<close> returns to link
  (\<^verbatim>\<open>cleanUp\<close>) is never called in any execution: every function an action calls is
  a listener of the directive, no element ever has a \<^verbatim>\<open>$destroy\<close> handler, the
  listeners of an earlier state are a prefix of those of every later state, and the
  listener that a link invocation registered is still registered after everything that
  follows.
\<close>

theorem cleanUp_never_invoked:
  "fst (link_body sc el (run as init_state)) = Deregister ''someEvent'' (length (links as))
   \<and> fst (link_body sc el (run as init_state))
        \<notin> set (invoked a (run (as @ Link sc el # bs) init_state))
   \<and> list_all is_listener (invoked a (run as init_state))
   \<and> on_destroy (elements (run as init_state) e) = []
   \<and> prefix (listeners (run as init_state) name) (listeners (run (as @ bs) init_state) name)
   \<and> (length (links as), Listener sc el)
        \<in> set (listeners (run (as @ Link sc el # bs) init_state) ''someEvent'')"
proof -
  let ?s = "run as init_state"
  have c1: "fst (link_body sc el ?s) = Deregister ''someEvent'' (length (links as))"
    by (simp add: link_body_cleanUp run_init_next_id)
  have all: "list_all is_listener (invoked a (run cs init_state))" for cs
    by (rule invoked_listeners [OF run_init_quiet])
  have c2: "fst (link_body sc el ?s) \<notin> set (invoked a (run (as @ Link sc el # bs) init_state))"
    using all [of "as @ Link sc el # bs"] unfolding c1 list_all_iff by fastforce
  have c4: "on_destroy (elements ?s e) = []"
    using run_init_quiet [of as] by (simp add: quiet_def)
  have c5: "prefix (listeners ?s name) (listeners (run (as @ bs) init_state) name)"
    by (simp add: run_init_listeners links_append enumerate_append_eq)
  have c6: "(length (links as), Listener sc el)
        \<in> set (listeners (run (as @ Link sc el # bs) init_state) ''someEvent'')"
    by (simp add: run_init_listeners links_append enumerate_append_eq)
  from c1 c2 all [of as] c4 c5 c6 show ?thesis
    by blast
qed

theorem cleanUp_never_invoked_witness:
  "fst (link_body 0 0 (run [] init_state)) = Deregister ''someEvent'' 0
   \<and> fst (link_body 0 0 (run [] init_state))
        \<notin> set (invoked (Destroy 0) (run [Link 0 0, Fire ''someEvent''] init_state))
   \<and> (0, Listener 0 0) \<in> set (listeners (run [Link 0 0, Fire ''someEvent''] init_state) ''someEvent'')"
  using cleanUp_never_invoked [of 0 0 "[]" "Destroy 0" "[Fire ''someEvent'']" 0 "''someEvent''"]
  by auto


text \<open>
  Claim C3. Every link invocation builds the join of a 999999-element empty array with
  \<^verbatim>\<open>"x"\<close>, which is 999998 characters \<^verbatim>\<open>x\<close>, stores it in \<^verbatim>\<open>scope.val\<close> and
  registers a \<^verbatim>\<open>someEvent\<close> listener on \<^verbatim>\<open>$rootScope\<close> that closes over this scope;
  in any state the scope of a registered listener is retained, and in every execution the
  scope of a registered listener holds the large string.
\<close>

theorem link_creates_large_string:
  "length (new_Array 999999) = 999999
   \<and> join ''x'' (new_Array 999999) = replicate 999998 CHR ''x''
   \<and> val (scopes (link sc el s) sc) = JString (replicate 999998 CHR ''x'')
   \<and> string_size (val (scopes (link sc el s) sc)) = 999998
   \<and> listeners (link sc el s) ''someEvent''
        = listeners s ''someEvent'' @ [(next_id s, Listener sc el)]
   \<and> captured_scope (Listener sc el) = [sc]
   \<and> sc \<in> set (retained_scopes (link sc el s) ''someEvent'')
   \<and> ((i, Listener sc el) \<in> set (listeners s' name) \<longrightarrow> sc \<in> set (retained_scopes s' name))
   \<and> ((i, Listener sc el) \<in> set (listeners (run as init_state) name) \<longrightarrow>
        val (scopes (run as init_state) sc) = JString (replicate 999998 CHR ''x''))"
proof -
  have a: "length (new_Array 999999) = 999999"
    by (simp only: new_Array_def length_replicate)
  have c: "val (scopes (link sc el s) sc) = JString (replicate 999998 CHR ''x'')"
    by (simp add: link_frame large_string)
  have d: "string_size (val (scopes (link sc el s) sc)) = 999998"
    by (simp only: c string_size.simps length_replicate)
  have e: "listeners (link sc el s) ''someEvent''
        = listeners s ''someEvent'' @ [(next_id s, Listener sc el)]"
    by (simp add: link_frame)
  have g: "sc \<in> set (retained_scopes t name)" if "(i, Listener sc el) \<in> set (listeners t name)"
    for t name i
    using that by (force simp: retained_scopes_def)
  have f: "sc \<in> set (retained_scopes (link sc el s) ''someEvent'')"
    by (rule g [of "next_id s"]) (simp add: e)
  have h: "val (scopes (run as init_state) sc) = JString (replicate 999998 CHR ''x'')"
    if "(i, Listener sc el) \<in> set (listeners (run as init_state) name)"
  proof -
    from that have "Listener sc el \<in> set (links as)"
      by (auto simp: run_init_listeners enumerate_eq_zip split: if_splits dest: set_zip_rightD)
    then have "sc \<in> set (concat (map captured_scope (links as)))"
      by force
    then have "sc \<in> set (linked_scopes as)"
      by (simp only: captured_links)
    then show ?thesis
      by (simp only: run_linked_val large_string)
  qed
  from a large_string c d e f g h show ?thesis
    by simp
qed

theorem link_creates_large_string_witness:
  "val (scopes (link 3 4 init_state) 3) = JString (replicate 999998 CHR ''x'')
   \<and> listeners (link 3 4 init_state) ''someEvent'' = [(0, Listener 3 4)]
   \<and> (0, Listener 3 4) \<in> set (listeners (run [Link 3 4, Fire ''someEvent''] init_state) ''someEvent'')
   \<and> val (scopes (run [Link 3 4, Fire ''someEvent''] init_state) 3) = JString (replicate 999998 CHR ''x'')"
proof -
  have m: "(0, Listener 3 4) \<in> set (listeners (run [Link 3 4, Fire ''someEvent''] init_state) ''someEvent'')"
    by (simp add: run_init_listeners)
  from m link_creates_large_string
    [of 3 4 init_state 0 init_state "''someEvent''" "[Link 3 4, Fire ''someEvent'']"]
  show ?thesis
    by (simp add: init_state_def)
qed

text \<open>
  Claim C10. After link, and after any actions that follow it (firings of
  \<^verbatim>\<open>someEvent\<close> among them), \<^verbatim>\<open>scope.val\<close> is the string of 999998 characters
  \<^verbatim>\<open>x\<close>; an action leaves the \<^verbatim>\<open>val\<close> of a scope as it was or makes it this
  string, so in every execution it is \<^verbatim>\<open>undefined\<close> or this string.
\<close>

theorem val_always_large_string:
  "val (scopes (link sc el s) sc) = JString (replicate 999998 CHR ''x'')
   \<and> val (scopes (run as (link sc el s)) sc) = JString (replicate 999998 CHR ''x'')
   \<and> val (scopes (step (Fire name) (run as (link sc el s))) sc)
        = JString (replicate 999998 CHR ''x'')
   \<and> (val (scopes (step a s) r) = val (scopes s r)
        \<or> val (scopes (step a s) r) = JString (replicate 999998 CHR ''x''))
   \<and> (val (scopes (run as init_state) r) = JUndefined
        \<or> val (scopes (run as init_state) r) = JString (replicate 999998 CHR ''x''))"
proof -
  have l: "val (scopes (link sc el s) sc) = large"
    by (simp add: link_frame)
  have a: "val (scopes (run bs (link sc el s)) sc) = large" for bs
    using l by (rule run_sticky)
  have b: "val (scopes (step (Fire name) (run as (link sc el s))) sc) = large"
    using a [of "as @ [Fire name]"] by (simp add: run_def)
  have c: "val (scopes (run as init_state) r) = JUndefined
        \<or> val (scopes (run as init_state) r) = large"
    using run_val [of as init_state r] by (simp add: init_state_def)
  from l a [of as] b step_val [of a s r] c show ?thesis
    by (simp only: large_string)
qed

theorem val_always_large_string_witness:
  "val (scopes (run [Fire ''someEvent'', Link 7 8, Destroy 2, Fire ''someEvent'']
                  (link 5 2 init_state)) 5)
     = JString (replicate 999998 CHR ''x'')"
  using val_always_large_string
    [of 5 2 init_state "[Fire ''someEvent'', Link 7 8, Destroy 2, Fire ''someEvent'']"]
  by simp

section \<open>Properties of the application module\<close>

subsection \<open>Routes\<close>

lemma routes_app_routes:
  "routes (app_routes :: ('e, 'd) resolver routeProvider) =
     [(''/album/:albumId'',
       \<lparr>templateUrl = Some ''app/album/album.html'', template = None,
        controller = Some ''AlbumController'', resolve = [(''album'', album)]\<rparr>),
      (''/toprated'',
       \<lparr>templateUrl = Some ''app/toprated/toprated.html'', template = None,
        controller = Some ''TopRatedController'', resolve = []\<rparr>),
      (''/root'',
       \<lparr>templateUrl = None, template = Some ''<div><root-test></root-test></div>'',
        controller = None, resolve = []\<rparr>),
      (''/scope'',
       \<lparr>templateUrl = None, template = Some ''<div><scope-test></scope-test></div>'',
        controller = None, resolve = []\<rparr>)]"
  by (simp add: app_routes_def config_def routeProvider_when_def routeProvider_otherwise_def)

lemma otherwise_app_routes:
  "otherwise_route (app_routes :: ('e, 'd) resolver routeProvider) =
     Some \<lparr>templateUrl = Some ''app/albums/albums.html'', template = None,
           controller = Some ''AlbumsController'', resolve = []\<rparr>"
  by (simp add: app_routes_def config_def routeProvider_when_def routeProvider_otherwise_def)

lemma sublist_root_test: "sublist ''<root-test>'' ''<div><root-test></root-test></div>''"
  by (simp add: sublist_Cons_right)

lemma sublist_scope_test: "sublist ''<scope-test>'' ''<div><scope-test></scope-test></div>''"
  by (simp add: sublist_Cons_right)

lemma parse_route_otherwise:
  assumes "\<forall>pat \<in> set (map fst (routes p)). \<not> matches pat path"
  shows "parse_route matches p path = otherwise_route p"
proof -
  have "find (\<lambda>pr. matches (fst pr) path) (routes p) = None"
    using assms by (force simp: find_None_iff)
  then show ?thesis
    by (simp add: parse_route_def)
qed

text \<open>
  Claim C4. The route table has exactly the four paths \<^verbatim>\<open>/album/:albumId\<close>,
  \<^verbatim>\<open>/toprated\<close>, \<^verbatim>\<open>/root\<close> and \<^verbatim>\<open>/scope\<close>, each with the template and
  controller of the source (the inline templates contain \<^verbatim>\<open><root-test>\<close> and
  \<^verbatim>\<open><scope-test>\<close>), and the route of \<^verbatim>\<open>otherwise\<close>; whatever the router's
  matching, a path that matches none of the four gets albums.html with AlbumsController.
\<close>

theorem route_table:
  "map fst (routes (app_routes :: ('e, 'd) resolver routeProvider))
     = [''/album/:albumId'', ''/toprated'', ''/root'', ''/scope'']
   \<and> map_of (routes (app_routes :: ('e, 'd) resolver routeProvider)) ''/album/:albumId''
     = Some \<lparr>templateUrl = Some ''app/album/album.html'', template = None,
             controller = Some ''AlbumController'', resolve = [(''album'', album)]\<rparr>
   \<and> map_of (routes (app_routes :: ('e, 'd) resolver routeProvider)) ''/toprated''
     = Some \<lparr>templateUrl = Some ''app/toprated/toprated.html'', template = None,
             controller = Some ''TopRatedController'', resolve = []\<rparr>
   \<and> map_of (routes (app_routes :: ('e, 'd) resolver routeProvider)) ''/root''
     = Some \<lparr>templateUrl = None, template = Some ''<div><root-test></root-test></div>'',
             controller = None, resolve = []\<rparr>
   \<and> sublist ''<root-test>'' ''<div><root-test></root-test></div>''
   \<and> map_of (routes (app_routes :: ('e, 'd) resolver routeProvider)) ''/scope''
     = Some \<lparr>templateUrl = None, template = Some ''<div><scope-test></scope-test></div>'',
             controller = None, resolve = []\<rparr>
   \<and> sublist ''<scope-test>'' ''<div><scope-test></scope-test></div>''
   \<and> otherwise_route (app_routes :: ('e, 'd) resolver routeProvider)
     = Some \<lparr>templateUrl = Some ''app/albums/albums.html'', template = None,
             controller = Some ''AlbumsController'', resolve = []\<rparr>
   \<and> ((\<forall>pat \<in> set [''/album/:albumId'', ''/toprated'', ''/root'', ''/scope'']. \<not> matches pat path) \<longrightarrow>
        parse_route matches (app_routes :: ('e, 'd) resolver routeProvider) path
          = Some \<lparr>templateUrl = Some ''app/albums/albums.html'', template = None,
                  controller = Some ''AlbumsController'', resolve = []\<rparr>)"
proof -
  have k: "map fst (routes (app_routes :: ('e, 'd) resolver routeProvider))
     = [''/album/:albumId'', ''/toprated'', ''/root'', ''/scope'']"
    by (simp add: routes_app_routes)
  have o: "parse_route matches (app_routes :: ('e, 'd) resolver routeProvider) path
          = Some \<lparr>templateUrl = Some ''app/albums/albums.html'', template = None,
                  controller = Some ''AlbumsController'', resolve = []\<rparr>"
    if "\<forall>pat \<in> set [''/album/:albumId'', ''/toprated'', ''/root'', ''/scope'']. \<not> matches pat path"
    using that parse_route_otherwise [of "app_routes :: ('e, 'd) resolver routeProvider" matches path]
    by (simp only: k otherwise_app_routes)
  have m: "map_of (routes (app_routes :: ('e, 'd) resolver routeProvider)) ''/album/:albumId''
     = Some \<lparr>templateUrl = Some ''app/album/album.html'', template = None,
             controller = Some ''AlbumController'', resolve = [(''album'', album)]\<rparr>"
    "map_of (routes (app_routes :: ('e, 'd) resolver routeProvider)) ''/toprated''
     = Some \<lparr>templateUrl = Some ''app/toprated/toprated.html'', template = None,
             controller = Some ''TopRatedController'', resolve = []\<rparr>"
    "map_of (routes (app_routes :: ('e, 'd) resolver routeProvider)) ''/root''
     = Some \<lparr>templateUrl = None, template = Some ''<div><root-test></root-test></div>'',
             controller = None, resolve = []\<rparr>"
    "map_of (routes (app_routes :: ('e, 'd) resolver routeProvider)) ''/scope''
     = Some \<lparr>templateUrl = None, template = Some ''<div><scope-test></scope-test></div>'',
             controller = None, resolve = []\<rparr>"
    by (simp_all add: routes_app_routes)
  from k m sublist_root_test sublist_scope_test otherwise_app_routes o show ?thesis
    by blast
qed

theorem route_table_witness:
  "parse_route (=) (app_routes :: (nat, nat) resolver routeProvider) ''/nowhere''
     = Some \<lparr>templateUrl = Some ''app/albums/albums.html'', template = None,
             controller = Some ''AlbumsController'', resolve = []\<rparr>"
  using route_table [where ?'e = nat and ?'d = nat, of "(=)" "''/nowhere''"]
  by simp

subsection \<open>The resolver, the controller and the directives\<close>

lemma album_calls:
  "calls (album js http params) =
     [Call ''console'' ''log'' [JString (js params)],
      Call ''$http'' ''get'' [JString (''api/album/'' @ to_string (get_prop params ''albumId''))]]"
  by (simp add: album_def Let_def)

lemma album_result:
  "result (album js http params) =
     then_promise data (http (''api/album/'' @ to_string (get_prop params ''albumId'')))"
  by (simp add: album_def Let_def)

lemma album_http_calls:
  "calls_on ''$http'' (calls (album js http params)) =
     [Call ''$http'' ''get'' [JString (''api/album/'' @ to_string (get_prop params ''albumId''))]]"
  by (simp add: album_calls calls_on_def)

text \<open>
  Claim C5. When the current route's parameters hold \<open>albumId\<close>, resolving
  \<^verbatim>\<open>album\<close> makes exactly one call on \<^verbatim>\<open>$http\<close>, a \<^verbatim>\<open>get\<close> of
  \<^verbatim>\<open>'api/album/' + albumId\<close>, and when the request succeeds the resolved value is the
  \<^verbatim>\<open>data\<close> of the response.
\<close>

theorem album_resolve_get:
  assumes "map_of params ''albumId'' = Some albumId"
  shows "calls_on ''$http'' (calls (album js http params))
           = [Call ''$http'' ''get'' [JString (''api/album/'' @ albumId)]]
         \<and> length (calls_on ''$http'' (calls (album js http params))) = 1
         \<and> (http (''api/album/'' @ albumId) = Inr response \<longrightarrow>
              result (album js http params) = Inr (data response))"
proof -
  have u: "to_string (get_prop params ''albumId'') = albumId"
    using assms by (simp add: get_prop_def)
  show ?thesis
    by (simp add: album_http_calls album_result u then_promise_def)
qed

theorem album_resolve_get_witness:
  "calls_on ''$http'' (calls (album (\<lambda>ps. ''{}'') (\<lambda>url. (Inr \<lparr>data = ''Abbey Road''\<rparr> :: nat + string response))
        [(''albumId'', ''42'')]))
     = [Call ''$http'' ''get'' [JString ''api/album/42'']]
   \<and> result (album (\<lambda>ps. ''{}'') (\<lambda>url. (Inr \<lparr>data = ''Abbey Road''\<rparr> :: nat + string response))
        [(''albumId'', ''42'')]) = Inr ''Abbey Road''"
  using album_resolve_get [of "[(''albumId'', ''42'')]" "''42''" "\<lambda>ps. ''{}''"
      "\<lambda>url. (Inr \<lparr>data = ''Abbey Road''\<rparr> :: nat + string response)" "\<lparr>data = ''Abbey Road''\<rparr>"]
  by simp

lemma HomeController_keys:
  "map fst (HomeController ([] :: (string \<times> 'e scope_fn) list))
     = [''isActive'', ''scenario1'', ''scenario2'', ''scenario3'', ''scenario4'']"
  by (simp add: HomeController_def)

lemma HomeController_lookup:
  "map_of (HomeController scope) ''scenario1'' = Some scenario1"
  "map_of (HomeController scope) ''scenario2'' = Some scenario2"
  "map_of (HomeController scope) ''scenario3'' = Some scenario3"
  "map_of (HomeController scope) ''scenario4'' = Some scenario4"
  "map_of (HomeController scope) ''isActive'' = Some isActive"
  by (simp_all add: HomeController_def update_conv')

text \<open>
  Claim C6. HomeController puts exactly four properties whose names start with
  \<^verbatim>\<open>scenario\<close> on the scope, \<^verbatim>\<open>scenario1\<close> to \<^verbatim>\<open>scenario4\<close>; calling one of
  them, with any arguments, makes exactly one call, of the method of the same name of
  \<^verbatim>\<open>ScenariosService\<close> with no arguments, and returns \<^verbatim>\<open>undefined\<close> when the
  service returns.
\<close>

theorem scenario_triggers:
  "filter (prefix ''scenario'') (map fst (HomeController ([] :: (string \<times> 'e scope_fn) list)))
     = [''scenario1'', ''scenario2'', ''scenario3'', ''scenario4'']
   \<and> map_of (HomeController (scope :: (string \<times> 'e scope_fn) list)) ''scenario1'' = Some scenario1
   \<and> map_of (HomeController scope) ''scenario2'' = Some scenario2
   \<and> map_of (HomeController scope) ''scenario3'' = Some scenario3
   \<and> map_of (HomeController scope) ''scenario4'' = Some scenario4
   \<and> calls (scenario1 (env :: 'e env) args) = [Call ''ScenariosService'' ''scenario1'' []]
   \<and> calls (scenario2 env args) = [Call ''ScenariosService'' ''scenario2'' []]
   \<and> calls (scenario3 env args) = [Call ''ScenariosService'' ''scenario3'' []]
   \<and> calls (scenario4 env args) = [Call ''ScenariosService'' ''scenario4'' []]
   \<and> (ScenariosService env ''scenario1'' [] = Inr v \<longrightarrow> result (scenario1 env args) = Inr JUndefined)
   \<and> (ScenariosService env ''scenario2'' [] = Inr v \<longrightarrow> result (scenario2 env args) = Inr JUndefined)
   \<and> (ScenariosService env ''scenario3'' [] = Inr v \<longrightarrow> result (scenario3 env args) = Inr JUndefined)
   \<and> (ScenariosService env ''scenario4'' [] = Inr v \<longrightarrow> result (scenario4 env args) = Inr JUndefined)"
proof -
  have f: "filter (prefix ''scenario'') (map fst (HomeController ([] :: (string \<times> 'e scope_fn) list)))
     = [''scenario1'', ''scenario2'', ''scenario3'', ''scenario4'']"
    by (simp add: HomeController_keys)
  have c: "calls (scenario1 env args) = [Call ''ScenariosService'' ''scenario1'' []]"
    "calls (scenario2 env args) = [Call ''ScenariosService'' ''scenario2'' []]"
    "calls (scenario3 env args) = [Call ''ScenariosService'' ''scenario3'' []]"
    "calls (scenario4 env args) = [Call ''ScenariosService'' ''scenario4'' []]"
    by (simp_all add: scenario1_def scenario2_def scenario3_def scenario4_def call_service_def)
  have r: "result (call_service m env args) = Inr JUndefined"
    if "ScenariosService env m [] = Inr v" for m
    using that by (simp add: call_service_def)
  from f c r HomeController_lookup(1-4) [of scope] show ?thesis
    unfolding scenario1_def scenario2_def scenario3_def scenario4_def by blast
qed

theorem scenario_triggers_witness:
  "map_of (HomeController []) ''scenario3'' = Some (scenario3 :: nat scope_fn)
   \<and> calls (scenario3 \<lparr>location_path = ''/'', ScenariosService = (\<lambda>m a. (Inr JUndefined :: nat + js_value))\<rparr> [])
       = [Call ''ScenariosService'' ''scenario3'' []]
   \<and> result (scenario3 \<lparr>location_path = ''/'', ScenariosService = (\<lambda>m a. (Inr JUndefined :: nat + js_value))\<rparr> [])
       = Inr JUndefined"
  using scenario_triggers [of "[]"
      "\<lparr>location_path = ''/'', ScenariosService = (\<lambda>m a. (Inr JUndefined :: nat + js_value))\<rparr>" "[]" JUndefined]
  by simp

text \<open>
  Claim C9. For a string \<open>viewLocation\<close>, \<^verbatim>\<open>isActive\<close> returns \<^verbatim>\<open>true\<close> exactly
  when it equals the current \<^verbatim>\<open>$location.path()\<close>, and the only call it makes is
  that getter: it assigns nothing and calls nothing that changes state.
\<close>

theorem isActive_strict_equality:
  "result (isActive env [JString viewLocation]) = Inr (JBool (viewLocation = location_path env))
   \<and> (result (isActive env [JString viewLocation]) = (Inr (JBool True) :: 'e + js_value))
        = (viewLocation = location_path env)
   \<and> calls (isActive env [JString viewLocation]) = [Call ''$location'' ''path'' []]"
  by (simp add: isActive_def arg_def)

theorem isActive_strict_equality_witness:
  "result (isActive \<lparr>location_path = ''/toprated'', ScenariosService = (\<lambda>m a. (Inr JUndefined :: nat + js_value))\<rparr>
       [JString ''/toprated'']) = Inr (JBool True)
   \<and> result (isActive \<lparr>location_path = ''/toprated'', ScenariosService = (\<lambda>m a. (Inr JUndefined :: nat + js_value))\<rparr>
       [JString ''/root'']) = Inr (JBool False)"
  using isActive_strict_equality
      [of "\<lparr>location_path = ''/toprated'', ScenariosService = (\<lambda>m a. (Inr JUndefined :: nat + js_value))\<rparr>" "''/toprated''"]
    isActive_strict_equality
      [of "\<lparr>location_path = ''/toprated'', ScenariosService = (\<lambda>m a. (Inr JUndefined :: nat + js_value))\<rparr>" "''/root''"]
  by simp



subsection \<open>No operation handles an error\<close>












lemma chain_exc_stops:
  "first_thrown throws cs = None \<Longrightarrow> throws c = Some e \<Longrightarrow>
     chain_exc throws (cs @ c # ds) p = (Some e, fold apply_call cs p)"
  by (induction cs arbitrary: p) (simp_all split: option.splits)







end
